theory Spec2Isabelle
  imports Complex_Main
begin

section \<open>Data model\<close>

text \<open>
  The track service of \<^verbatim>\<open>src/app/core/services/track/track.service.ts\<close>.
  JavaScript strings are \<open>string\<close>, \<open>Date\<close> values are their epoch milliseconds
  (\<open>getTime()\<close>), an optional field (\<open>T | undefined\<close>) is an \<open>option\<close>.
  A \<open>File\<close> is only ever handed on to the storage service and to the audio element,
  so it is an opaque payload with a name.
\<close>

datatype File = File string

type_synonym MusicCategory = string

text \<open>
  \<open>TrackRecord\<close> (the persisted record) and \<open>Track\<close> (the view) have the same ten
  fields, read off \<open>mapRecordToTrack\<close> and the record literal of \<open>createTrack\<close>.
  The field \<open>id\<close> is called \<open>id'\<close> here, since \<open>id\<close> is the identity function of HOL.
\<close>

record TrackRecord =
  id' :: string
  title :: string
  artist :: string
  description :: "string option"
  category :: MusicCategory
  duration :: real
  audioFileId :: string
  coverImageId :: "string option"
  createdAt :: nat
  updatedAt :: nat

type_synonym Track = TrackRecord

record TrackFormData =
  fd_title :: string
  fd_artist :: string
  fd_description :: "string option"
  fd_category :: MusicCategory
  fd_audioFile :: File
  fd_coverImage :: "File option"

text \<open>The argument of \<open>updateTrack\<close>: every field of the form optional.\<close>

record TrackUpdates =
  up_title :: "string option"
  up_artist :: "string option"
  up_description :: "string option"
  up_category :: "MusicCategory option"
  up_audioFile :: "File option"
  up_coverImage :: "File option"

datatype TrackOperationState = Idle | Loading | Success | Error

text \<open>
  The mutable fields of the service: the value held by \<open>_tracks$\<close>, and the signals
  \<open>_state\<close>, \<open>_error\<close> and \<open>_selectedTrack\<close>.
\<close>

record TrackService =
  tracks :: "Track list"
  state :: TrackOperationState
  error :: "string option"
  selectedTrack :: "Track option"

section \<open>The environment: storage service, audio element, clock\<close>

text \<open>
  A value thrown into the error channel of an observable: an \<open>Error\<close> object with its
  message, or anything else (\<open>handleError\<close> tells the two apart).
\<close>

datatype thrown = ErrorObj string | NonError

text \<open>
  What a storage observable does once subscribed: it emits one value and completes,
  or it errors.
\<close>

datatype 'a notification = Next 'a | Err thrown

text \<open>
  \<open>StorageService\<close> is injected into the track service; its implementation is not
  part of the sources, so the outcome of each of its methods is a parameter. The field
  \<open>storage_deleteTrack\<close> is the method \<open>StorageService.deleteTrack\<close>, renamed apart
  from \<open>TrackService.deleteTrack\<close>.
\<close>

record StorageService =
  getAllTracks :: "TrackRecord list notification"
  getTrack :: "string \<Rightarrow> TrackRecord option notification"
  saveTrack :: "TrackRecord \<Rightarrow> bool notification"
  saveAudioFile :: "string \<Rightarrow> File \<Rightarrow> bool notification"
  saveCoverImage :: "string \<Rightarrow> File \<Rightarrow> bool notification"
  deleteAudioFile :: "string \<Rightarrow> bool notification"
  deleteCoverImage :: "string \<Rightarrow> bool notification"
  storage_deleteTrack :: "string \<Rightarrow> bool notification"

text \<open>The calls of storage methods an operation makes, in the order it makes them.\<close>

datatype call =
    GetAllTracks
  | GetTrack string
  | SaveTrack TrackRecord
  | SaveAudioFile string File
  | SaveCoverImage string File
  | DeleteAudioFile string
  | DeleteCoverImage string
  | DeleteTrack string

text \<open>
  The event the \<open>Audio\<close> element fires for a file: \<open>loadedmetadata\<close>, with the
  element's \<open>duration\<close> then, or \<open>error\<close>.
\<close>

datatype AudioEvent = LoadedMetadata real | AudioError

section \<open>Strings\<close>

text \<open>Decimal digits of a number, as a template literal prints \<open>Date.now()\<close>.\<close>

definition digit_char :: "nat \<Rightarrow> char" where
  "digit_char d = ''0123456789'' ! d"

fun string_of_nat :: "nat \<Rightarrow> string" where
  "string_of_nat n =
     (if n < 10 then [digit_char n]
      else string_of_nat (n div 10) @ [digit_char (n mod 10)])"

declare string_of_nat.simps [simp del]

text \<open>
  \<open>String.prototype.trim\<close>. A \<open>char\<close> is a code unit below 256; the white space
  and line terminators of JavaScript in that range are tab, line feed, vertical tab,
  form feed, carriage return, space and the no-break space U+00A0.
\<close>

definition is_space :: "char \<Rightarrow> bool" where
  "is_space c =
     (c \<in> set [CHR 0x09, CHR 0x0A, CHR 0x0B, CHR 0x0C, CHR 0x0D, CHR '' '', CHR 0xA0])"

definition trim :: "string \<Rightarrow> string" where
  "trim s = rev (dropWhile is_space (rev (dropWhile is_space s)))"

section \<open>Private helpers of the service\<close>

definition mapRecordToTrack :: "TrackRecord \<Rightarrow> Track" where
  "mapRecordToTrack record =
     \<lparr> id' = id' record,
       title = title record,
       artist = artist record,
       description = description record,
       category = category record,
       duration = duration record,
       audioFileId = audioFileId record,
       coverImageId = coverImageId record,
       createdAt = createdAt record,
       updatedAt = updatedAt record \<rparr>"

text \<open>
  \<open>getAudioDuration\<close> resolves with the element's duration on \<open>loadedmetadata\<close> and
  with 0 on \<open>error\<close>; its promise never rejects.
\<close>

definition getAudioDuration :: "AudioEvent \<Rightarrow> real" where
  "getAudioDuration ev = (case ev of LoadedMetadata d \<Rightarrow> d | AudioError \<Rightarrow> 0)"

text \<open>
  \<open>generateId\<close>: \<open>now\<close> is the reading of \<open>Date.now()\<close>, \<open>rnd\<close> the string
  \<open>Math.random().toString(36).substring(2, 9)\<close>.
\<close>

definition generateId :: "nat \<Rightarrow> string \<Rightarrow> string" where
  "generateId now rnd = ''track-'' @ string_of_nat now @ ''-'' @ rnd"

definition handleError :: "thrown \<Rightarrow> TrackService \<Rightarrow> TrackService" where
  "handleError e svc =
     (case e of
        ErrorObj message \<Rightarrow> svc\<lparr>state := Error, error := Some message\<rparr>
      | NonError \<Rightarrow> svc\<lparr>state := Error, error := Some ''An unknown error occurred''\<rparr>)"

definition clearError :: "TrackService \<Rightarrow> TrackService" where
  "clearError svc = svc\<lparr>error := None, state := Idle\<rparr>"

definition selectTrack :: "Track option \<Rightarrow> TrackService \<Rightarrow> TrackService" where
  "selectTrack track svc = svc\<lparr>selectedTrack := track\<rparr>"

definition getTrackById :: "string \<Rightarrow> TrackService \<Rightarrow> Track option" where
  "getTrackById i svc = find (\<lambda>t. id' t = i) (tracks svc)"

text \<open>
  JavaScript truthiness of an optional string, as in \<open>if (track.coverImageId)\<close>:
  \<open>undefined\<close> and the empty string are falsy.
\<close>

definition truthy :: "string option \<Rightarrow> bool" where
  "truthy s = (case s of None \<Rightarrow> False | Some v \<Rightarrow> v \<noteq> [])"

section \<open>loadTracks\<close>

text \<open>
  \<open>Array.prototype.sort\<close> with a comparator: a stable sort, here by insertion. An
  element goes before the first one the comparator does not put it after.
\<close>

fun insort_cmp :: "('a \<Rightarrow> 'a \<Rightarrow> int) \<Rightarrow> 'a \<Rightarrow> 'a list \<Rightarrow> 'a list" where
  "insort_cmp cmp x [] = [x]"
| "insort_cmp cmp x (y # ys) =
     (if cmp x y \<le> 0 then x # y # ys else y # insort_cmp cmp x ys)"

definition array_sort :: "('a \<Rightarrow> 'a \<Rightarrow> int) \<Rightarrow> 'a list \<Rightarrow> 'a list" where
  "array_sort cmp xs = foldr (insort_cmp cmp) xs []"

text \<open>The comparator of \<open>loadTracks\<close>: \<open>b.createdAt.getTime() - a.createdAt.getTime()\<close>.\<close>

definition byCreatedAtDesc :: "Track \<Rightarrow> Track \<Rightarrow> int" where
  "byCreatedAtDesc a b = int (createdAt b) - int (createdAt a)"

definition loadTracks :: "StorageService \<Rightarrow> TrackService \<Rightarrow> TrackService \<times> call list" where
  "loadTracks st svc =
     (let svc1 = svc\<lparr>state := Loading\<rparr> in
      (case getAllTracks st of
         Next records \<Rightarrow>
           svc1\<lparr>tracks := array_sort byCreatedAtDesc (map mapRecordToTrack records),
                state := Success\<rparr>
       | Err e \<Rightarrow> handleError e svc1,
       [GetAllTracks]))"

section \<open>createTrack\<close>

text \<open>
  The pipeline of \<open>createTrack\<close> up to its \<open>tap\<close>: the value it emits (\<open>Inr\<close>) or the
  error it raises (\<open>Inl\<close>), with the storage calls made. \<open>tId\<close> is the clock reading
  inside \<open>generateId\<close>, \<open>tNow\<close> the later \<open>new Date()\<close>; \<open>audio\<close> is the event the
  audio element fires for a file.
\<close>

definition createTrack_saveRecord ::
  "StorageService \<Rightarrow> string \<Rightarrow> string \<Rightarrow> nat \<Rightarrow> TrackFormData \<Rightarrow> real \<Rightarrow> string option
    \<Rightarrow> (thrown + Track) \<times> call list" where
  "createTrack_saveRecord st i audioId tNow formData dur coverId =
     (let trackRecord =
        \<lparr> id' = i,
          title = trim (fd_title formData),
          artist = trim (fd_artist formData),
          description = map_option trim (fd_description formData),
          category = fd_category formData,
          duration = dur,
          audioFileId = audioId,
          coverImageId = coverId,
          createdAt = tNow,
          updatedAt = tNow \<rparr> in
      (case saveTrack st trackRecord of
         Err e \<Rightarrow> Inl e
       | Next saved \<Rightarrow>
           if \<not> saved then Inl (ErrorObj ''Failed to save track'')
           else Inr (mapRecordToTrack trackRecord),
       [SaveTrack trackRecord]))"

definition createTrack_pipe ::
  "StorageService \<Rightarrow> (File \<Rightarrow> AudioEvent) \<Rightarrow> nat \<Rightarrow> string \<Rightarrow> nat \<Rightarrow> TrackFormData
    \<Rightarrow> (thrown + Track) \<times> call list" where
  "createTrack_pipe st audio tId rnd tNow formData =
     (let i = generateId tId rnd;
          audioId = ''audio-'' @ i;
          c1 = [SaveAudioFile audioId (fd_audioFile formData)] in
      case saveAudioFile st audioId (fd_audioFile formData) of
        Err e \<Rightarrow> (Inl e, c1)
      | Next audioSaved \<Rightarrow>
          if \<not> audioSaved then (Inl (ErrorObj ''Failed to save audio file''), c1)
          else
            let dur = getAudioDuration (audio (fd_audioFile formData)) in
            (case fd_coverImage formData of
               Some cover \<Rightarrow>
                 let coverId = ''cover-'' @ i;
                     c2 = c1 @ [SaveCoverImage coverId cover] in
                 (case saveCoverImage st coverId cover of
                    Err e \<Rightarrow> (Inl e, c2)
                  | Next imageSaved \<Rightarrow>
                      let (r, c3) = createTrack_saveRecord st i audioId tNow formData dur
                                      (if imageSaved then Some coverId else None)
                      in (r, c2 @ c3))
             | None \<Rightarrow>
                 let (r, c3) = createTrack_saveRecord st i audioId tNow formData dur None
                 in (r, c1 @ c3)))"

text \<open>
  \<open>createTrack\<close>: the state goes to \<open>loading\<close>; on a value the \<open>tap\<close> prepends the
  track and sets \<open>success\<close>; on an error \<open>catchError\<close> calls \<open>handleError\<close> and the
  observable emits \<open>null\<close> (\<open>None\<close>).
\<close>

definition createTrack ::
  "StorageService \<Rightarrow> (File \<Rightarrow> AudioEvent) \<Rightarrow> nat \<Rightarrow> string \<Rightarrow> nat \<Rightarrow> TrackFormData
    \<Rightarrow> TrackService \<Rightarrow> Track option \<times> TrackService \<times> call list" where
  "createTrack st audio tId rnd tNow formData svc =
     (let svc1 = svc\<lparr>state := Loading\<rparr>;
          (r, cs) = createTrack_pipe st audio tId rnd tNow formData in
      case r of
        Inr track \<Rightarrow> (Some track, svc1\<lparr>tracks := track # tracks svc1, state := Success\<rparr>, cs)
      | Inl e \<Rightarrow> (None, handleError e svc1, cs))"

section \<open>updateTrack\<close>

text \<open>
  Replacing the cover: the source has this code twice, inside the audio branch
  and as the cover-only branch, the same but for the audio id and the duration
  it carries along. The new image is saved under a time-stamped id; on the value the
  save emits, the \<open>tap\<close> issues the deletion of the old image (when the record has
  one) without looking at the value and without waiting for the deletion, and the
  \<open>map\<close> takes the new id if the save reported success, the old one otherwise.
\<close>

definition updateTrack_cover ::
  "StorageService \<Rightarrow> nat \<Rightarrow> string \<Rightarrow> TrackRecord \<Rightarrow> File
    \<Rightarrow> (thrown + string option) \<times> call list" where
  "updateTrack_cover st tCover i existingRecord cover =
     (let newCoverImageId = ''cover-'' @ i @ ''-'' @ string_of_nat tCover;
          c1 = [SaveCoverImage newCoverImageId cover] in
      case saveCoverImage st newCoverImageId cover of
        Err e \<Rightarrow> (Inl e, c1)
      | Next imageSaved \<Rightarrow>
          (Inr (if imageSaved then Some newCoverImageId else coverImageId existingRecord),
           c1 @ (if truthy (coverImageId existingRecord)
                 then [DeleteCoverImage (the (coverImageId existingRecord))] else [])))"

text \<open>
  The second \<open>switchMap\<close> of \<open>updateTrack\<close>: the audio id, duration and cover id of the
  record to write. \<open>tAudio\<close> and \<open>tCover\<close> are the readings of \<open>Date.now()\<close> for the
  two ids. The deletion of the old audio is issued after the save reported success
  and is not waited for: its outcome is never read.
\<close>

definition updateTrack_blobs ::
  "StorageService \<Rightarrow> (File \<Rightarrow> AudioEvent) \<Rightarrow> nat \<Rightarrow> nat \<Rightarrow> string \<Rightarrow> TrackUpdates
    \<Rightarrow> TrackRecord \<Rightarrow> (thrown + string \<times> real \<times> string option) \<times> call list" where
  "updateTrack_blobs st audio tAudio tCover i updates existingRecord =
     (case up_audioFile updates of
        Some newAudio \<Rightarrow>
          let newAudioFileId = ''audio-'' @ i @ ''-'' @ string_of_nat tAudio;
              c1 = [SaveAudioFile newAudioFileId newAudio] in
          (case saveAudioFile st newAudioFileId newAudio of
             Err e \<Rightarrow> (Inl e, c1)
           | Next saved \<Rightarrow>
               if \<not> saved then (Inl (ErrorObj ''Failed to save new audio file''), c1)
               else
                 let dur = getAudioDuration (audio newAudio);
                     c2 = c1 @ [DeleteAudioFile (audioFileId existingRecord)] in
                 (case up_coverImage updates of
                    Some cover \<Rightarrow>
                      (case updateTrack_cover st tCover i existingRecord cover of
                         (Inl e, c3) \<Rightarrow> (Inl e, c2 @ c3)
                       | (Inr coverId, c3) \<Rightarrow> (Inr (newAudioFileId, dur, coverId), c2 @ c3))
                  | None \<Rightarrow>
                      (Inr (newAudioFileId, dur, coverImageId existingRecord), c2)))
      | None \<Rightarrow>
          (case up_coverImage updates of
             Some cover \<Rightarrow>
               (case updateTrack_cover st tCover i existingRecord cover of
                  (Inl e, c3) \<Rightarrow> (Inl e, c3)
                | (Inr coverId, c3) \<Rightarrow>
                    (Inr (audioFileId existingRecord, duration existingRecord, coverId), c3))
           | None \<Rightarrow>
               (Inr (audioFileId existingRecord, duration existingRecord,
                     coverImageId existingRecord), [])))"

text \<open>The third \<open>switchMap\<close>: merge the updates over the record and save it.\<close>

definition updateTrack_saveRecord ::
  "StorageService \<Rightarrow> nat \<Rightarrow> TrackUpdates \<Rightarrow> TrackRecord \<Rightarrow> string \<Rightarrow> real \<Rightarrow> string option
    \<Rightarrow> (thrown + Track) \<times> call list" where
  "updateTrack_saveRecord st tUpd updates existingRecord audioId dur coverId =
     (let updatedRecord = existingRecord
        \<lparr> title := (case up_title updates of Some s \<Rightarrow> trim s | None \<Rightarrow> title existingRecord),
          artist := (case up_artist updates of Some s \<Rightarrow> trim s | None \<Rightarrow> artist existingRecord),
          description := (case up_description updates of Some s \<Rightarrow> Some (trim s)
                          | None \<Rightarrow> description existingRecord),
          category := (case up_category updates of Some c \<Rightarrow> c | None \<Rightarrow> category existingRecord),
          audioFileId := audioId,
          coverImageId := coverId,
          duration := dur,
          updatedAt := tUpd \<rparr> in
      (case saveTrack st updatedRecord of
         Err e \<Rightarrow> Inl e
       | Next saved \<Rightarrow>
           if \<not> saved then Inl (ErrorObj ''Failed to update track'')
           else Inr (mapRecordToTrack updatedRecord),
       [SaveTrack updatedRecord]))"

definition updateTrack_pipe ::
  "StorageService \<Rightarrow> (File \<Rightarrow> AudioEvent) \<Rightarrow> nat \<Rightarrow> nat \<Rightarrow> nat \<Rightarrow> string \<Rightarrow> TrackUpdates
    \<Rightarrow> (thrown + Track) \<times> call list" where
  "updateTrack_pipe st audio tAudio tCover tUpd i updates =
     (case getTrack st i of
        Err e \<Rightarrow> (Inl e, [GetTrack i])
      | Next None \<Rightarrow> (Inl (ErrorObj ''Track not found''), [GetTrack i])
      | Next (Some existingRecord) \<Rightarrow>
          (case updateTrack_blobs st audio tAudio tCover i updates existingRecord of
             (Inl e, c1) \<Rightarrow> (Inl e, GetTrack i # c1)
           | (Inr (audioId, dur, coverId), c1) \<Rightarrow>
               let (r, c2) = updateTrack_saveRecord st tUpd updates existingRecord
                               audioId dur coverId
               in (r, GetTrack i # c1 @ c2)))"

definition updateTrack ::
  "StorageService \<Rightarrow> (File \<Rightarrow> AudioEvent) \<Rightarrow> nat \<Rightarrow> nat \<Rightarrow> nat \<Rightarrow> string \<Rightarrow> TrackUpdates
    \<Rightarrow> TrackService \<Rightarrow> Track option \<times> TrackService \<times> call list" where
  "updateTrack st audio tAudio tCover tUpd i updates svc =
     (let svc1 = svc\<lparr>state := Loading\<rparr>;
          (r, cs) = updateTrack_pipe st audio tAudio tCover tUpd i updates in
      case r of
        Inr track \<Rightarrow>
          (Some track,
           svc1\<lparr>tracks := map (\<lambda>t. if id' t = i then track else t) (tracks svc1),
                selectedTrack := (if map_option id' (selectedTrack svc1) = Some i
                                  then Some track else selectedTrack svc1),
                state := Success\<rparr>,
           cs)
      | Inl e \<Rightarrow> (None, handleError e svc1, cs))"

section \<open>deleteTrack\<close>

text \<open>
  \<open>forkJoin\<close> over observables that each emit once or error: it errors as soon as
  one of them does (here: with the first error in the order of the array) and
  otherwise emits the array of their values. It is only applied to arrays of two
  or three observables here.
\<close>

fun forkJoin :: "'a notification list \<Rightarrow> thrown + 'a list" where
  "forkJoin [] = Inr []"
| "forkJoin (Err e # ns) = Inl e"
| "forkJoin (Next v # ns) = (case forkJoin ns of Inl e \<Rightarrow> Inl e | Inr vs \<Rightarrow> Inr (v # vs))"

definition deleteTrack_pipe :: "StorageService \<Rightarrow> string \<Rightarrow> (thrown + bool) \<times> call list" where
  "deleteTrack_pipe st i =
     (case getTrack st i of
        Err e \<Rightarrow> (Inl e, [GetTrack i])
      | Next None \<Rightarrow> (Inl (ErrorObj ''Track not found''), [GetTrack i])
      | Next (Some track) \<Rightarrow>
          let deleteOperations =
                [(DeleteAudioFile (audioFileId track), deleteAudioFile st (audioFileId track)),
                 (DeleteTrack i, storage_deleteTrack st i)]
                @ (if truthy (coverImageId track)
                   then [(DeleteCoverImage (the (coverImageId track)),
                          deleteCoverImage st (the (coverImageId track)))]
                   else [])
          in (case forkJoin (map snd deleteOperations) of
                Inl e \<Rightarrow> Inl e
              | Inr results \<Rightarrow> Inr True,
              GetTrack i # map fst deleteOperations))"

definition deleteTrack ::
  "StorageService \<Rightarrow> string \<Rightarrow> TrackService \<Rightarrow> bool \<times> TrackService \<times> call list" where
  "deleteTrack st i svc =
     (let svc1 = svc\<lparr>state := Loading\<rparr>;
          (r, cs) = deleteTrack_pipe st i in
      case r of
        Inr ok \<Rightarrow>
          (ok,
           svc1\<lparr>tracks := filter (\<lambda>t. id' t \<noteq> i) (tracks svc1),
                selectedTrack := (if map_option id' (selectedTrack svc1) = Some i
                                  then None else selectedTrack svc1),
                state := Success\<rparr>,
           cs)
      | Inl e \<Rightarrow> (False, handleError e svc1, cs))"

section \<open>Properties of the list and of blob ids\<close>

text \<open>The track list is sorted strictly by \<open>createdAt\<close>, newest first.\<close>

definition sortedByCreatedAtDesc :: "Track list \<Rightarrow> bool" where
  "sortedByCreatedAtDesc ts = sorted_wrt (\<lambda>a b. createdAt a > createdAt b) ts"

text \<open>
  The two shapes of blob ids the specification states: \<open>audio-<trackId>\<close> for the
  audio and \<open>cover-<trackId>-<timestamp>\<close> for the cover, a timestamp being a
  non-empty string of decimal digits.
\<close>

definition is_digit :: "char \<Rightarrow> bool" where
  "is_digit c = (c \<in> set ''0123456789'')"

definition is_timestamp :: "string \<Rightarrow> bool" where
  "is_timestamp s = (s \<noteq> [] \<and> list_all is_digit s)"




section \<open>A concrete environment\<close>

text \<open>
  A stored record with a cover, a storage service in which every call succeeds and
  which holds that record, an audio element that decodes every file to three
  seconds, a form with a cover, and a service that lists and selects the record.
  The theorems below are instantiated on these and on variants of them.
\<close>

definition ex_record :: TrackRecord where
  "ex_record =
     \<lparr> id' = ''track-1-abc'', title = ''Song'', artist = ''Band'', description = None,
       category = ''Rock'', duration = 3, audioFileId = ''audio-track-1-abc'',
       coverImageId = Some ''cover-track-1-abc'', createdAt = 10, updatedAt = 10 \<rparr>"

definition ex_storage :: StorageService where
  "ex_storage =
     \<lparr> getAllTracks = Next [ex_record],
       getTrack = (\<lambda>i. Next (if i = ''track-1-abc'' then Some ex_record else None)),
       saveTrack = (\<lambda>r. Next True),
       saveAudioFile = (\<lambda>i f. Next True),
       saveCoverImage = (\<lambda>i f. Next True),
       deleteAudioFile = (\<lambda>i. Next True),
       deleteCoverImage = (\<lambda>i. Next True),
       storage_deleteTrack = (\<lambda>i. Next True) \<rparr>"

definition ex_audio :: "File \<Rightarrow> AudioEvent" where
  "ex_audio f = LoadedMetadata 3"

definition ex_form :: TrackFormData where
  "ex_form =
     \<lparr> fd_title = '' Tune '', fd_artist = ''Duo'', fd_description = None,
       fd_category = ''Jazz'', fd_audioFile = File ''tune.mp3'',
       fd_coverImage = Some (File ''tune.png'') \<rparr>"

definition ex_service :: TrackService where
  "ex_service =
     \<lparr> tracks = [ex_record], state = Idle, error = None, selectedTrack = Some ex_record \<rparr>"

text \<open>An update that supplies a new cover image and nothing else.\<close>

definition ex_cover_only :: TrackUpdates where
  "ex_cover_only =
     \<lparr> up_title = None, up_artist = None, up_description = None, up_category = None,
       up_audioFile = None, up_coverImage = Some (File ''new.png'') \<rparr>"


text \<open>
  The track \<open>createTrack\<close> makes of \<open>ex_form\<close> when \<open>Date.now()\<close> reads 2 inside
  \<open>generateId\<close>, the random part is \<open>xyz\<close>, and \<open>new Date()\<close> reads 20.
\<close>

definition ex_created :: Track where
  "ex_created =
     \<lparr> id' = ''track-2-xyz'', title = ''Tune'', artist = ''Duo'', description = None,
       category = ''Jazz'', duration = 3, audioFileId = ''audio-track-2-xyz'',
       coverImageId = Some ''cover-track-2-xyz'', createdAt = 20, updatedAt = 20 \<rparr>"

section \<open>Outcomes of the three operations\<close>

lemma mapRecordToTrack_id: "mapRecordToTrack r = r"
  by (simp add: mapRecordToTrack_def)

lemma handleError_fields:
  "tracks (handleError e svc) = tracks svc"
  "selectedTrack (handleError e svc) = selectedTrack svc"
  "state (handleError e svc) = Error"
  "error (handleError e svc) \<noteq> None"
  by (cases e; simp add: handleError_def)+

lemma createTrack_Inl:
  "createTrack_pipe st audio tId rnd tNow fd = (Inl e, cs) \<Longrightarrow>
   createTrack st audio tId rnd tNow fd svc = (None, handleError e (svc\<lparr>state := Loading\<rparr>), cs)"
  by (simp add: createTrack_def)

lemma createTrack_Inr:
  "createTrack_pipe st audio tId rnd tNow fd = (Inr t, cs) \<Longrightarrow>
   createTrack st audio tId rnd tNow fd svc =
     (Some t, svc\<lparr>state := Loading, tracks := t # tracks svc, state := Success\<rparr>, cs)"
  by (simp add: createTrack_def)

lemma updateTrack_Inl:
  "updateTrack_pipe st audio tA tC tU i up = (Inl e, cs) \<Longrightarrow>
   updateTrack st audio tA tC tU i up svc = (None, handleError e (svc\<lparr>state := Loading\<rparr>), cs)"
  by (simp add: updateTrack_def)

lemma updateTrack_Inr:
  "updateTrack_pipe st audio tA tC tU i up = (Inr t, cs) \<Longrightarrow>
   updateTrack st audio tA tC tU i up svc =
     (Some t, svc\<lparr>state := Loading, tracks := map (\<lambda>x. if id' x = i then t else x) (tracks svc),
        selectedTrack := (if map_option id' (selectedTrack svc) = Some i then Some t else selectedTrack svc),
        state := Success\<rparr>, cs)"
  by (auto simp add: updateTrack_def)

lemma deleteTrack_Inl:
  "deleteTrack_pipe st i = (Inl e, cs) \<Longrightarrow>
   deleteTrack st i svc = (False, handleError e (svc\<lparr>state := Loading\<rparr>), cs)"
  by (simp add: deleteTrack_def)

lemma deleteTrack_pipe_Inr: "deleteTrack_pipe st i = (Inr ok, cs) \<Longrightarrow> ok"
  by (auto simp: deleteTrack_pipe_def Let_def split: notification.splits option.splits sum.splits)

lemma deleteTrack_Inr:
  "deleteTrack_pipe st i = (Inr ok, cs) \<Longrightarrow>
   deleteTrack st i svc =
     (True, svc\<lparr>state := Loading, tracks := filter (\<lambda>t. id' t \<noteq> i) (tracks svc),
        selectedTrack := (if map_option id' (selectedTrack svc) = Some i then None else selectedTrack svc),
        state := Success\<rparr>, cs)"
  using deleteTrack_pipe_Inr[of st i ok cs] by (auto simp add: deleteTrack_def)

lemma createTrack_pipe_audio_fails:
  "saveAudioFile st (''audio-'' @ generateId tId rnd) (fd_audioFile fd) \<noteq> Next True \<Longrightarrow>
   \<exists>e. createTrack_pipe st audio tId rnd tNow fd =
     (Inl e, [SaveAudioFile (''audio-'' @ generateId tId rnd) (fd_audioFile fd)])"
  by (cases "saveAudioFile st (''audio-'' @ generateId tId rnd) (fd_audioFile fd)")
     (auto simp: createTrack_pipe_def Let_def)

lemma createTrack_saveRecord_calls:
  "createTrack_saveRecord st i a tNow fd d c = (r, cs) \<Longrightarrow>
   \<exists>tr. cs = [SaveTrack tr] \<and> (saveTrack st tr \<noteq> Next True \<longrightarrow> (\<exists>e. r = Inl e))
      \<and> (saveTrack st tr = Next True \<longrightarrow> r = Inr tr)"
  by (auto simp: createTrack_saveRecord_def Let_def mapRecordToTrack_def split: notification.splits)

lemma createTrack_pipe_record_fails:
  assumes "createTrack_pipe st audio tId rnd tNow fd = (r, cs)"
      and "SaveTrack tr \<in> set cs" and "saveTrack st tr \<noteq> Next True"
  shows "(\<exists>e. r = Inl e) \<and> hd cs = SaveAudioFile (''audio-'' @ generateId tId rnd) (fd_audioFile fd)
         \<and> saveAudioFile st (''audio-'' @ generateId tId rnd) (fd_audioFile fd) = Next True"
  using assms
  by (auto simp: createTrack_pipe_def Let_def split: notification.splits if_splits option.splits prod.splits
           dest!: createTrack_saveRecord_calls)

lemma string_of_nat_31: "string_of_nat 31 = ''31''"
  by (simp add: string_of_nat.simps digit_char_def)

lemma generateId_example: "generateId 2 ''xyz'' = ''track-2-xyz''"
  by (simp add: generateId_def string_of_nat.simps digit_char_def)

section \<open>Failure handling of createTrack\<close>

text \<open>
  Claim C3. \<open>createTrack\<close> fails as a whole when one of its two mandatory writes
  fails. A write fails when its observable errors or emits \<open>false\<close>. If the audio
  write fails, the operation emits \<open>null\<close>, the state is \<open>error\<close>, and the audio save
  is the only storage call made: no record is written. If the record write fails,
  the operation emits \<open>null\<close> with state \<open>error\<close> although the audio blob was
  written before: the audio save is the first call made and it reported success.
\<close>

theorem createTrack_mandatory_writes:
  assumes "createTrack st audio tId rnd tNow fd svc = (res, svc', cs)"
  shows "(saveAudioFile st (''audio-'' @ generateId tId rnd) (fd_audioFile fd) \<noteq> Next True \<longrightarrow>
            res = None \<and> state svc' = Error
            \<and> cs = [SaveAudioFile (''audio-'' @ generateId tId rnd) (fd_audioFile fd)])
       \<and> (\<forall>tr. SaveTrack tr \<in> set cs \<and> saveTrack st tr \<noteq> Next True \<longrightarrow>
            res = None \<and> state svc' = Error
            \<and> hd cs = SaveAudioFile (''audio-'' @ generateId tId rnd) (fd_audioFile fd)
            \<and> saveAudioFile st (''audio-'' @ generateId tId rnd) (fd_audioFile fd) = Next True)"
proof -
  obtain r c where p: "createTrack_pipe st audio tId rnd tNow fd = (r, c)" by force
  show ?thesis
  proof (cases r)
    case (Inl e)
    with p assms have eq: "res = None" "svc' = handleError e (svc\<lparr>state := Loading\<rparr>)" "cs = c"
      by (simp_all add: createTrack_Inl)
    show ?thesis
      using createTrack_pipe_audio_fails[of st tId rnd fd audio tNow]
            createTrack_pipe_record_fails[OF p] p eq
      by (auto simp: handleError_fields)
  next
    case (Inr t)
    with p assms have eq: "cs = c" by (simp add: createTrack_Inr)
    show ?thesis
      using createTrack_pipe_audio_fails[of st tId rnd fd audio tNow]
            createTrack_pipe_record_fails[OF p] p eq Inr
      by auto
  qed
qed

theorem createTrack_mandatory_writes_witness:
  "fst (createTrack (ex_storage\<lparr>saveAudioFile := (\<lambda>i f. Next False)\<rparr>) ex_audio 2 ''xyz'' 20
          ex_form ex_service) = None
   \<and> fst (createTrack (ex_storage\<lparr>saveTrack := (\<lambda>r. Next False)\<rparr>) ex_audio 2 ''xyz'' 20
          ex_form ex_service) = None
   \<and> hd (snd (snd (createTrack (ex_storage\<lparr>saveTrack := (\<lambda>r. Next False)\<rparr>) ex_audio 2 ''xyz'' 20
          ex_form ex_service))) = SaveAudioFile (''audio-'' @ generateId 2 ''xyz'') (File ''tune.mp3'')"
proof -
  let ?A = "ex_storage\<lparr>saveAudioFile := (\<lambda>i f. Next False)\<rparr>"
  let ?B = "ex_storage\<lparr>saveTrack := (\<lambda>r. Next False)\<rparr>"
  obtain r1 s1 c1 where a: "createTrack ?A ex_audio 2 ''xyz'' 20 ex_form ex_service = (r1, s1, c1)"
    by (metis prod_cases3)
  obtain r2 s2 c2 where b: "createTrack ?B ex_audio 2 ''xyz'' 20 ex_form ex_service = (r2, s2, c2)"
    by (metis prod_cases3)
  have tr: "\<exists>tr. SaveTrack tr \<in> set c2"
    using b
    by (simp add: createTrack_def createTrack_pipe_def createTrack_saveRecord_def Let_def
          ex_storage_def ex_form_def) auto
  have "r1 = None"
    using createTrack_mandatory_writes[OF a] by (simp add: ex_storage_def)
  moreover have "r2 = None \<and> hd c2 = SaveAudioFile (''audio-'' @ generateId 2 ''xyz'') (File ''tune.mp3'')"
    using createTrack_mandatory_writes[OF b] tr by (auto simp add: ex_storage_def ex_form_def)
  ultimately show ?thesis using a b by simp
qed

text \<open>
  Claim C4, amended. When a cover image is supplied and the audio was saved: if the
  save of the cover reports failure by emitting \<open>false\<close>, \<open>createTrack\<close> still
  succeeds once the record is written, the track is prepended to the list, the
  state is \<open>success\<close>, and the track has no \<open>coverImageId\<close>; if the save of the
  cover errors, nothing catches the error before the outer \<open>catchError\<close>, and
  \<open>createTrack\<close> emits \<open>null\<close> with state \<open>error\<close>, the list unchanged and no record
  written.
\<close>

theorem createTrack_cover_failure:
  assumes "fd_coverImage fd = Some cover"
      and "saveAudioFile st (''audio-'' @ generateId tId rnd) (fd_audioFile fd) = Next True"
  shows "(saveCoverImage st (''cover-'' @ generateId tId rnd) cover = Next False
          \<and> (\<forall>r. saveTrack st r = Next True) \<longrightarrow>
          (\<exists>T. createTrack st audio tId rnd tNow fd svc =
               (Some T, svc\<lparr>tracks := T # tracks svc, state := Success\<rparr>,
                [SaveAudioFile (''audio-'' @ generateId tId rnd) (fd_audioFile fd),
                 SaveCoverImage (''cover-'' @ generateId tId rnd) cover,
                 SaveTrack T])
             \<and> coverImageId T = None
             \<and> id' T = generateId tId rnd
             \<and> audioFileId T = ''audio-'' @ generateId tId rnd))
       \<and> (\<forall>e. saveCoverImage st (''cover-'' @ generateId tId rnd) cover = Err e \<longrightarrow>
            createTrack st audio tId rnd tNow fd svc =
              (None, handleError e (svc\<lparr>state := Loading\<rparr>),
               [SaveAudioFile (''audio-'' @ generateId tId rnd) (fd_audioFile fd),
                SaveCoverImage (''cover-'' @ generateId tId rnd) cover])
            \<and> tracks (handleError e (svc\<lparr>state := Loading\<rparr>)) = tracks svc
            \<and> state (handleError e (svc\<lparr>state := Loading\<rparr>)) = Error)"
proof -
  have a: "\<exists>T. createTrack st audio tId rnd tNow fd svc =
               (Some T, svc\<lparr>tracks := T # tracks svc, state := Success\<rparr>,
                [SaveAudioFile (''audio-'' @ generateId tId rnd) (fd_audioFile fd),
                 SaveCoverImage (''cover-'' @ generateId tId rnd) cover,
                 SaveTrack T])
             \<and> coverImageId T = None
             \<and> id' T = generateId tId rnd
             \<and> audioFileId T = ''audio-'' @ generateId tId rnd"
    if "saveCoverImage st (''cover-'' @ generateId tId rnd) cover = Next False"
       "\<forall>r. saveTrack st r = Next True"
    using assms that
    by (simp add: createTrack_def createTrack_pipe_def createTrack_saveRecord_def Let_def
          mapRecordToTrack_def)
  have b: "createTrack st audio tId rnd tNow fd svc =
              (None, handleError e (svc\<lparr>state := Loading\<rparr>),
               [SaveAudioFile (''audio-'' @ generateId tId rnd) (fd_audioFile fd),
                SaveCoverImage (''cover-'' @ generateId tId rnd) cover])"
    if "saveCoverImage st (''cover-'' @ generateId tId rnd) cover = Err e" for e
    using assms that
    by (simp add: createTrack_def createTrack_pipe_def Let_def)
  show ?thesis using a b by (simp add: handleError_fields)
qed

theorem createTrack_cover_failure_witness:
  "(\<exists>T. fst (createTrack (ex_storage\<lparr>saveCoverImage := (\<lambda>i f. Next False)\<rparr>) ex_audio 2 ''xyz''
             20 ex_form ex_service) = Some T \<and> coverImageId T = None)
   \<and> fst (createTrack (ex_storage\<lparr>saveCoverImage := (\<lambda>i f. Err (ErrorObj ''QuotaExceededError''))\<rparr>)
          ex_audio 2 ''xyz'' 20 ex_form ex_service) = None"
proof -
  let ?A = "ex_storage\<lparr>saveCoverImage := (\<lambda>i f. Next False)\<rparr>"
  let ?B = "ex_storage\<lparr>saveCoverImage := (\<lambda>i f. Err (ErrorObj ''QuotaExceededError''))\<rparr>"
  have 1: "fd_coverImage ex_form = Some (File ''tune.png'')" by (simp add: ex_form_def)
  have 2: "saveAudioFile ?A (''audio-'' @ generateId 2 ''xyz'') (fd_audioFile ex_form) = Next True"
    by (simp add: ex_storage_def)
  have 3: "saveCoverImage ?A (''cover-'' @ generateId 2 ''xyz'') (File ''tune.png'') = Next False
           \<and> (\<forall>r. saveTrack ?A r = Next True)"
    by (simp add: ex_storage_def)
  have 4: "saveAudioFile ?B (''audio-'' @ generateId 2 ''xyz'') (fd_audioFile ex_form) = Next True"
    by (simp add: ex_storage_def)
  have 5: "saveCoverImage ?B (''cover-'' @ generateId 2 ''xyz'') (File ''tune.png'')
             = Err (ErrorObj ''QuotaExceededError'')"
    by (simp add: ex_storage_def)
  have a: "\<exists>T. fst (createTrack ?A ex_audio 2 ''xyz'' 20 ex_form ex_service) = Some T
             \<and> coverImageId T = None"
    using createTrack_cover_failure[OF 1 2, of ex_audio 20 ex_service, THEN conjunct1,
            rule_format, OF 3]
    by auto
  have b: "fst (createTrack ?B ex_audio 2 ''xyz'' 20 ex_form ex_service) = None"
    using createTrack_cover_failure[OF 1 4, of ex_audio 20 ex_service, THEN conjunct2,
            rule_format, OF 5]
    by simp
  show ?thesis using a b by simp
qed

text \<open>
  Claim C4 as stated fails: a cover is supplied, the audio is saved, the save of the
  cover fails by erroring, and \<open>createTrack\<close> emits \<open>null\<close>, sets the state \<open>error\<close>
  and leaves the list as it was instead of creating the track without a cover.
\<close>

theorem createTrack_cover_failure_counterexample:
  "fd_coverImage ex_form = Some (File ''tune.png'')
   \<and> createTrack (ex_storage\<lparr>saveCoverImage := (\<lambda>i f. Err (ErrorObj ''QuotaExceededError''))\<rparr>)
        ex_audio 2 ''xyz'' 20 ex_form ex_service
     = (None,
        ex_service\<lparr>state := Error, error := Some ''QuotaExceededError''\<rparr>,
        [SaveAudioFile ''audio-track-2-xyz'' (File ''tune.mp3''),
         SaveCoverImage ''cover-track-2-xyz'' (File ''tune.png'')])
   \<and> tracks (ex_service\<lparr>state := Error, error := Some ''QuotaExceededError''\<rparr>) = [ex_record]"
  by (simp add: createTrack_def createTrack_pipe_def Let_def generateId_example handleError_def
        ex_storage_def ex_form_def ex_service_def)

text \<open>
  Claim C8. A created track has the duration \<open>getAudioDuration\<close> resolved with, which
  is not negative whenever the duration the audio element reports is not; for an
  undecodable payload (the element fires \<open>error\<close>) the probe yields 0, and
  \<open>createTrack\<close> succeeds with duration 0 whenever its writes do not fail.
\<close>

theorem createTrack_duration:
  "(createTrack st audio tId rnd tNow fd svc = (Some T, svc', cs) \<longrightarrow>
      duration T = getAudioDuration (audio (fd_audioFile fd))
      \<and> ((\<forall>d. audio (fd_audioFile fd) = LoadedMetadata d \<longrightarrow> 0 \<le> d) \<longrightarrow> 0 \<le> duration T))
   \<and> (audio (fd_audioFile fd) = AudioError \<longrightarrow>
        getAudioDuration (audio (fd_audioFile fd)) = 0
        \<and> (saveAudioFile st (''audio-'' @ generateId tId rnd) (fd_audioFile fd) = Next True
            \<and> (\<forall>c e. saveCoverImage st (''cover-'' @ generateId tId rnd) c \<noteq> Err e)
            \<and> (\<forall>r. saveTrack st r = Next True)
            \<longrightarrow> (\<exists>T' svc'' cs'. createTrack st audio tId rnd tNow fd svc = (Some T', svc'', cs')
                   \<and> duration T' = 0)))"
proof -
  have a: "duration T = getAudioDuration (audio (fd_audioFile fd))"
    if "createTrack st audio tId rnd tNow fd svc = (Some T, svc', cs)"
    using that
    by (auto simp: createTrack_def createTrack_pipe_def createTrack_saveRecord_def Let_def
          mapRecordToTrack_def
          split: notification.splits if_splits option.splits prod.splits sum.splits)
  have b: "0 \<le> getAudioDuration (audio (fd_audioFile fd))"
    if "\<forall>d. audio (fd_audioFile fd) = LoadedMetadata d \<longrightarrow> 0 \<le> d"
    using that by (cases "audio (fd_audioFile fd)") (simp_all add: getAudioDuration_def)
  have c: "\<exists>T' svc'' cs'. createTrack st audio tId rnd tNow fd svc = (Some T', svc'', cs')
                   \<and> duration T' = 0"
    if "audio (fd_audioFile fd) = AudioError"
       "saveAudioFile st (''audio-'' @ generateId tId rnd) (fd_audioFile fd) = Next True"
       "\<forall>c e. saveCoverImage st (''cover-'' @ generateId tId rnd) c \<noteq> Err e"
       "\<forall>r. saveTrack st r = Next True"
    using that
    by (auto simp: createTrack_def createTrack_pipe_def createTrack_saveRecord_def Let_def
          mapRecordToTrack_def getAudioDuration_def
          split: notification.splits if_splits option.splits prod.splits sum.splits)
  show ?thesis using a b c by (auto simp: getAudioDuration_def)
qed

theorem createTrack_duration_witness:
  "(\<exists>T. fst (createTrack ex_storage (\<lambda>f. AudioError) 2 ''xyz'' 20 ex_form ex_service) = Some T
        \<and> duration T = 0)
   \<and> (\<exists>T. fst (createTrack ex_storage ex_audio 2 ''xyz'' 20 ex_form ex_service) = Some T
        \<and> 0 \<le> duration T)"
proof -
  obtain r s c where a: "createTrack ex_storage ex_audio 2 ''xyz'' 20 ex_form ex_service = (r, s, c)"
    by (metis prod_cases3)
  have "r \<noteq> None"
    using a by (auto simp: createTrack_def createTrack_pipe_def createTrack_saveRecord_def Let_def
                 ex_storage_def ex_form_def)
  then obtain T where T: "r = Some T" by auto
  have "\<forall>d. ex_audio (fd_audioFile ex_form) = LoadedMetadata d \<longrightarrow> 0 \<le> d"
    by (simp add: ex_audio_def)
  with createTrack_duration[of ex_storage ex_audio 2 "''xyz''" 20 ex_form ex_service T s c] a T
  have 1: "0 \<le> duration T" by simp
  have h: "saveAudioFile ex_storage (''audio-'' @ generateId 2 ''xyz'') (fd_audioFile ex_form) = Next True
        \<and> (\<forall>c e. saveCoverImage ex_storage (''cover-'' @ generateId 2 ''xyz'') c \<noteq> Err e)
        \<and> (\<forall>r. saveTrack ex_storage r = Next True)"
    by (simp add: ex_storage_def)
  from createTrack_duration[of ex_storage "\<lambda>f. AudioError" 2 "''xyz''" 20 ex_form ex_service] h
  have 2: "\<exists>T. fst (createTrack ex_storage (\<lambda>f. AudioError) 2 ''xyz'' 20 ex_form ex_service) = Some T
        \<and> duration T = 0" by fastforce
  show ?thesis using 1 2 a T by simp
qed

section \<open>The selection and the list under deleteTrack\<close>

text \<open>
  Claim C9. When \<open>deleteTrack\<close> succeeds on the id of the selected track, the
  selection becomes absent; deleting a track that is not the selected one leaves
  the selection as it was.
\<close>

theorem deleteTrack_selection:
  assumes "deleteTrack st i svc = (ok, svc', cs)"
  shows "(ok \<and> (\<exists>t. selectedTrack svc = Some t \<and> id' t = i) \<longrightarrow> selectedTrack svc' = None)
       \<and> (\<not> (\<exists>t. selectedTrack svc = Some t \<and> id' t = i) \<longrightarrow>
            selectedTrack svc' = selectedTrack svc)"
proof (cases "deleteTrack_pipe st i")
  case (Pair r cs0)
  show ?thesis
  proof (cases r)
    case (Inl e)
    with Pair assms show ?thesis by (auto simp add: deleteTrack_Inl handleError_fields)
  next
    case (Inr b)
    with Pair assms show ?thesis by (auto simp add: deleteTrack_Inr)
  qed
qed

theorem deleteTrack_selection_witness:
  "selectedTrack (fst (snd (deleteTrack ex_storage ''track-1-abc''
       (selectTrack (Some ex_record) ex_service)))) = None
   \<and> selectedTrack (fst (snd (deleteTrack ex_storage ''track-1-abc''
       (selectTrack (Some (ex_record\<lparr>id' := ''track-2-def''\<rparr>)) ex_service))))
       = Some (ex_record\<lparr>id' := ''track-2-def''\<rparr>)
   \<and> fst (deleteTrack ex_storage ''track-1-abc'' (selectTrack (Some ex_record) ex_service))"
proof -
  let ?s1 = "selectTrack (Some ex_record) ex_service"
  let ?s2 = "selectTrack (Some (ex_record\<lparr>id' := ''track-2-def''\<rparr>)) ex_service"
  obtain ok1 t1 c1 where a: "deleteTrack ex_storage ''track-1-abc'' ?s1 = (ok1, t1, c1)"
    by (metis prod_cases3)
  obtain ok2 t2 c2 where b: "deleteTrack ex_storage ''track-1-abc'' ?s2 = (ok2, t2, c2)"
    by (metis prod_cases3)
  have ok1: "ok1"
    using a by (simp add: deleteTrack_def deleteTrack_pipe_def Let_def ex_storage_def
                  ex_record_def truthy_def)
  have "selectedTrack t1 = None"
    using deleteTrack_selection[OF a] ok1 by (simp add: selectTrack_def ex_record_def)
  moreover have "selectedTrack t2 = Some (ex_record\<lparr>id' := ''track-2-def''\<rparr>)"
    using deleteTrack_selection[OF b] by (simp add: selectTrack_def)
  ultimately show ?thesis using a b ok1 by simp
qed

text \<open>
  Claim C10. Whenever \<open>createTrack\<close>, \<open>updateTrack\<close> or \<open>deleteTrack\<close> fails (its
  pipeline raises an error), the returned observable emits \<open>null\<close> (create, update)
  or \<open>false\<close> (delete) and only then; the track list is what it was before the
  operation, the state is \<open>error\<close> and an error message is recorded.
\<close>

theorem failure_keeps_list:
  "(fst (createTrack st audio tId rnd tNow fd svc) = None \<longleftrightarrow>
      (\<exists>e. fst (createTrack_pipe st audio tId rnd tNow fd) = Inl e))
   \<and> (fst (createTrack st audio tId rnd tNow fd svc) = None \<longrightarrow>
        tracks (fst (snd (createTrack st audio tId rnd tNow fd svc))) = tracks svc
        \<and> state (fst (snd (createTrack st audio tId rnd tNow fd svc))) = Error
        \<and> error (fst (snd (createTrack st audio tId rnd tNow fd svc))) \<noteq> None)
   \<and> (fst (updateTrack st audio tA tC tU i up svc) = None \<longleftrightarrow>
      (\<exists>e. fst (updateTrack_pipe st audio tA tC tU i up) = Inl e))
   \<and> (fst (updateTrack st audio tA tC tU i up svc) = None \<longrightarrow>
        tracks (fst (snd (updateTrack st audio tA tC tU i up svc))) = tracks svc
        \<and> state (fst (snd (updateTrack st audio tA tC tU i up svc))) = Error
        \<and> error (fst (snd (updateTrack st audio tA tC tU i up svc))) \<noteq> None)
   \<and> (fst (deleteTrack st i svc) = False \<longleftrightarrow>
      (\<exists>e. fst (deleteTrack_pipe st i) = Inl e))
   \<and> (fst (deleteTrack st i svc) = False \<longrightarrow>
        tracks (fst (snd (deleteTrack st i svc))) = tracks svc
        \<and> state (fst (snd (deleteTrack st i svc))) = Error
        \<and> error (fst (snd (deleteTrack st i svc))) \<noteq> None)"
proof -
  obtain r1 c1 where p1: "createTrack_pipe st audio tId rnd tNow fd = (r1, c1)" by force
  obtain r2 c2 where p2: "updateTrack_pipe st audio tA tC tU i up = (r2, c2)" by force
  obtain r3 c3 where p3: "deleteTrack_pipe st i = (r3, c3)" by force
  show ?thesis
    using p1 p2 p3
    by (cases r1; cases r2; cases r3)
       (simp_all add: createTrack_Inl createTrack_Inr updateTrack_Inl updateTrack_Inr
          deleteTrack_Inl deleteTrack_Inr handleError_fields)
qed

theorem failure_keeps_list_witness:
  "fst (createTrack (ex_storage\<lparr>saveAudioFile := (\<lambda>i f. Next False)\<rparr>) ex_audio 2 ''xyz'' 20
         ex_form ex_service) = None
   \<and> tracks (fst (snd (createTrack (ex_storage\<lparr>saveAudioFile := (\<lambda>i f. Next False)\<rparr>) ex_audio
         2 ''xyz'' 20 ex_form ex_service))) = [ex_record]
   \<and> fst (updateTrack (ex_storage\<lparr>saveAudioFile := (\<lambda>i f. Next False)\<rparr>) ex_audio 30 31 32
         ''track-9-zzz'' ex_cover_only ex_service) = None
   \<and> tracks (fst (snd (updateTrack (ex_storage\<lparr>saveAudioFile := (\<lambda>i f. Next False)\<rparr>) ex_audio
         30 31 32 ''track-9-zzz'' ex_cover_only ex_service))) = [ex_record]
   \<and> fst (deleteTrack (ex_storage\<lparr>saveAudioFile := (\<lambda>i f. Next False)\<rparr>) ''track-9-zzz''
         ex_service) = False
   \<and> state (fst (snd (deleteTrack (ex_storage\<lparr>saveAudioFile := (\<lambda>i f. Next False)\<rparr>)
         ''track-9-zzz'' ex_service))) = Error
   \<and> tracks (fst (snd (deleteTrack (ex_storage\<lparr>saveAudioFile := (\<lambda>i f. Next False)\<rparr>)
         ''track-9-zzz'' ex_service))) = [ex_record]"
proof -
  let ?A = "ex_storage\<lparr>saveAudioFile := (\<lambda>i f. Next False)\<rparr>"
  have c: "fst (createTrack_pipe ?A ex_audio 2 ''xyz'' 20 ex_form)
             = Inl (ErrorObj ''Failed to save audio file'')"
    by (simp add: createTrack_pipe_def Let_def ex_storage_def)
  have u: "fst (updateTrack_pipe ?A ex_audio 30 31 32 ''track-9-zzz'' ex_cover_only)
             = Inl (ErrorObj ''Track not found'')"
    by (simp add: updateTrack_pipe_def ex_storage_def)
  have d: "fst (deleteTrack_pipe ?A ''track-9-zzz'') = Inl (ErrorObj ''Track not found'')"
    by (simp add: deleteTrack_pipe_def ex_storage_def)
  have t: "tracks ex_service = [ex_record]" by (simp add: ex_service_def)
  show ?thesis
    using failure_keeps_list[of ?A ex_audio 2 "''xyz''" 20 ex_form ex_service
            30 31 32 "''track-9-zzz''" ex_cover_only]
          c u d t
    by simp
qed

section \<open>Deletions in deleteTrack\<close>

text \<open>
  A deletion that errors makes \<open>deleteTrack\<close> emit \<open>false\<close>; deletions that emit a
  value, whichever it is, make it emit \<open>true\<close>.
\<close>

lemma deleteTrack_erroring_deletion:
  assumes "getTrack st i = Next (Some t)"
      and "deleteAudioFile st (audioFileId t) = Err e \<or> storage_deleteTrack st i = Err e
           \<or> (truthy (coverImageId t) \<and> deleteCoverImage st (the (coverImageId t)) = Err e)"
  shows "fst (deleteTrack st i svc) = False"
  using assms
  by (cases "deleteAudioFile st (audioFileId t)"; cases "storage_deleteTrack st i";
      cases "deleteCoverImage st (the (coverImageId t))")
     (auto simp: deleteTrack_def deleteTrack_pipe_def Let_def)

lemma deleteTrack_values_dropped:
  assumes "getTrack st i = Next (Some t)"
      and "deleteAudioFile st (audioFileId t) = Next a" and "storage_deleteTrack st i = Next b"
      and "deleteCoverImage st (the (coverImageId t)) = Next c"
  shows "fst (deleteTrack st i svc) = True"
  using assms by (simp add: deleteTrack_def deleteTrack_pipe_def Let_def)

text \<open>
  Claim C1. A deletion that errors makes \<open>deleteTrack\<close> fail, but the values the
  deletions emit are dropped by \<open>map(() => true)\<close>: here the deletion of the audio
  blob and the deletion of the record both report failure (\<open>false\<close>), and
  \<open>deleteTrack\<close> emits \<open>true\<close>, drops the track from the list and sets \<open>success\<close>.
\<close>

theorem deleteTrack_reported_failure:
  "deleteTrack (ex_storage\<lparr>deleteAudioFile := (\<lambda>i. Next False),
                             storage_deleteTrack := (\<lambda>i. Next False)\<rparr>) ''track-1-abc'' ex_service
     = (True,
        ex_service\<lparr>tracks := [], selectedTrack := None, state := Success\<rparr>,
        [GetTrack ''track-1-abc'', DeleteAudioFile ''audio-track-1-abc'',
         DeleteTrack ''track-1-abc'', DeleteCoverImage ''cover-track-1-abc''])"
  by (simp add: deleteTrack_def deleteTrack_pipe_def Let_def ex_storage_def ex_service_def
        ex_record_def truthy_def)

section \<open>Replacing a blob in updateTrack\<close>

text \<open>
  The outcome of the deletions of old blobs is never read: \<open>updateTrack\<close> does the
  same whatever they do. The old audio blob is only deleted after the save of the
  new one reported success.
\<close>

lemma updateTrack_cover_unread:
  "updateTrack_cover (st\<lparr>deleteAudioFile := f, deleteCoverImage := g\<rparr>) tC i r cover
     = updateTrack_cover st tC i r cover"
  by (simp add: updateTrack_cover_def)

lemma updateTrack_blobs_unread:
  "updateTrack_blobs (st\<lparr>deleteAudioFile := f, deleteCoverImage := g\<rparr>) audio tA tC i up r
     = updateTrack_blobs st audio tA tC i up r"
  by (simp add: updateTrack_blobs_def updateTrack_cover_unread Let_def
        split: option.split notification.split)

lemma updateTrack_saveRecord_unread:
  "updateTrack_saveRecord (st\<lparr>deleteAudioFile := f, deleteCoverImage := g\<rparr>) tU up r a d c
     = updateTrack_saveRecord st tU up r a d c"
  by (simp add: updateTrack_saveRecord_def)

lemma updateTrack_deletion_outcome_unread:
  "updateTrack (st\<lparr>deleteAudioFile := f, deleteCoverImage := g\<rparr>) audio tA tC tU i up svc
     = updateTrack st audio tA tC tU i up svc"
proof -
  have "updateTrack_pipe (st\<lparr>deleteAudioFile := f, deleteCoverImage := g\<rparr>) audio tA tC tU i up
          = updateTrack_pipe st audio tA tC tU i up"
    by (simp add: updateTrack_pipe_def updateTrack_blobs_unread updateTrack_saveRecord_unread
          split: option.split notification.split prod.split sum.split)
  then show ?thesis by (simp add: updateTrack_def)
qed

lemma updateTrack_cover_calls:
  "updateTrack_cover st tC i r cover = (x, cs) \<Longrightarrow> DeleteAudioFile a \<notin> set cs"
  by (auto simp: updateTrack_cover_def Let_def split: notification.splits if_splits)

lemma updateTrack_blobs_old_audio:
  assumes "updateTrack_blobs st audio tA tC i up r = (x, cs)" "DeleteAudioFile a \<in> set cs"
  shows "a = audioFileId r
         \<and> (\<exists>f. up_audioFile up = Some f
                \<and> saveAudioFile st (''audio-'' @ i @ ''-'' @ string_of_nat tA) f = Next True)"
  using assms
  by (auto simp: updateTrack_blobs_def Let_def
           split: option.splits notification.splits if_splits prod.splits sum.splits
           dest: updateTrack_cover_calls)

lemma updateTrack_old_audio_after_save:
  assumes "DeleteAudioFile a \<in> set (snd (snd (updateTrack st audio tA tC tU i up svc)))"
  shows "\<exists>f. up_audioFile up = Some f
            \<and> saveAudioFile st (''audio-'' @ i @ ''-'' @ string_of_nat tA) f = Next True"
proof -
  have "\<exists>r x cs. updateTrack_blobs st audio tA tC i up r = (x, cs) \<and> DeleteAudioFile a \<in> set cs"
    using assms
    by (fastforce simp: updateTrack_def updateTrack_pipe_def updateTrack_saveRecord_def Let_def
             split: option.splits notification.splits if_splits prod.splits sum.splits)
  then show ?thesis using updateTrack_blobs_old_audio by blast
qed

text \<open>
  Claim C2. In the cover branch of \<open>updateTrack\<close> the deletion of the old cover is
  issued on whatever the save of the new cover emits: here the save reports failure
  (\<open>false\<close>), the old cover is deleted all the same, and the record written keeps
  the id of the deleted cover.
\<close>

theorem updateTrack_cover_failed_save:
  "updateTrack (ex_storage\<lparr>saveCoverImage := (\<lambda>i f. Next False)\<rparr>) ex_audio 30 31 32
       ''track-1-abc'' ex_cover_only ex_service
     = (Some (ex_record\<lparr>updatedAt := 32\<rparr>),
        ex_service\<lparr>tracks := [ex_record\<lparr>updatedAt := 32\<rparr>],
                     selectedTrack := Some (ex_record\<lparr>updatedAt := 32\<rparr>), state := Success\<rparr>,
        [GetTrack ''track-1-abc'',
         SaveCoverImage ''cover-track-1-abc-31'' (File ''new.png''),
         DeleteCoverImage ''cover-track-1-abc'',
         SaveTrack (ex_record\<lparr>updatedAt := 32\<rparr>)])"
  by (simp add: updateTrack_def updateTrack_pipe_def updateTrack_blobs_def updateTrack_cover_def
        updateTrack_saveRecord_def mapRecordToTrack_def Let_def ex_storage_def ex_service_def
        ex_record_def ex_cover_only_def truthy_def string_of_nat_31)

lemma updateTrack_cover_Inr:
  "updateTrack_cover st tC i r cover = (Inr c, cs) \<Longrightarrow>
   c = (if saveCoverImage st (''cover-'' @ i @ ''-'' @ string_of_nat tC) cover = Next True
        then Some (''cover-'' @ i @ ''-'' @ string_of_nat tC) else coverImageId r)"
  by (auto simp: updateTrack_cover_def Let_def split: notification.splits)

lemma updateTrack_blobs_Inr:
  assumes "updateTrack_blobs st audio tA tC i up r = (Inr (a, d, c), cs)"
  shows "a = (case up_audioFile up of
                Some f \<Rightarrow> ''audio-'' @ i @ ''-'' @ string_of_nat tA
              | None \<Rightarrow> audioFileId r)
       \<and> d = (case up_audioFile up of
                Some f \<Rightarrow> getAudioDuration (audio f)
              | None \<Rightarrow> duration r)
       \<and> c = (case up_coverImage up of
                Some cover \<Rightarrow>
                  if saveCoverImage st (''cover-'' @ i @ ''-'' @ string_of_nat tC) cover = Next True
                  then Some (''cover-'' @ i @ ''-'' @ string_of_nat tC) else coverImageId r
              | None \<Rightarrow> coverImageId r)"
  using assms
  by (auto simp: updateTrack_blobs_def Let_def
           split: option.splits notification.splits if_splits prod.splits sum.splits
           dest!: updateTrack_cover_Inr)

lemma updateTrack_saveRecord_Inr:
  assumes "updateTrack_saveRecord st tU up r a d c = (Inr T, cs)"
  shows "T = r\<lparr> title := (case up_title up of Some s \<Rightarrow> trim s | None \<Rightarrow> title r),
               artist := (case up_artist up of Some s \<Rightarrow> trim s | None \<Rightarrow> artist r),
               description := (case up_description up of Some s \<Rightarrow> Some (trim s)
                               | None \<Rightarrow> description r),
               category := (case up_category up of Some c \<Rightarrow> c | None \<Rightarrow> category r),
               audioFileId := a, coverImageId := c, duration := d, updatedAt := tU \<rparr>"
  using assms
  by (auto simp: updateTrack_saveRecord_def Let_def mapRecordToTrack_def
           split: notification.splits if_splits)

lemma updateTrack_pipe_Inr_record:
  assumes "updateTrack_pipe st audio tA tC tU i up = (Inr T, cs)"
  shows "\<exists>r a d c cs1. getTrack st i = Next (Some r)
           \<and> updateTrack_blobs st audio tA tC i up r = (Inr (a, d, c), cs1)
           \<and> T = r\<lparr> title := (case up_title up of Some s \<Rightarrow> trim s | None \<Rightarrow> title r),
               artist := (case up_artist up of Some s \<Rightarrow> trim s | None \<Rightarrow> artist r),
               description := (case up_description up of Some s \<Rightarrow> Some (trim s)
                               | None \<Rightarrow> description r),
               category := (case up_category up of Some c \<Rightarrow> c | None \<Rightarrow> category r),
               audioFileId := a, coverImageId := c, duration := d, updatedAt := tU \<rparr>"
  using assms
  by (auto simp: updateTrack_pipe_def Let_def
           split: option.splits notification.splits prod.splits sum.splits
           dest!: updateTrack_saveRecord_Inr)


lemma createTrack_example:
  "createTrack ex_storage ex_audio 2 ''xyz'' tNow ex_form ex_service =
     (Some (ex_created\<lparr>createdAt := tNow, updatedAt := tNow\<rparr>),
      ex_service\<lparr>tracks := [ex_created\<lparr>createdAt := tNow, updatedAt := tNow\<rparr>, ex_record],
                   state := Success\<rparr>,
      [SaveAudioFile ''audio-track-2-xyz'' (File ''tune.mp3''),
       SaveCoverImage ''cover-track-2-xyz'' (File ''tune.png''),
       SaveTrack (ex_created\<lparr>createdAt := tNow, updatedAt := tNow\<rparr>)])"
  by (simp add: createTrack_def createTrack_pipe_def createTrack_saveRecord_def Let_def
        mapRecordToTrack_def generateId_example ex_storage_def ex_audio_def ex_form_def
        ex_service_def ex_created_def getAudioDuration_def trim_def is_space_def)


section \<open>updateTrack with a new cover only\<close>

text \<open>
  Claim C7, amended. A successful \<open>updateTrack\<close> that supplies a new cover image and
  no audio file leaves \<open>audioFileId\<close> and \<open>duration\<close> as they are in the stored
  record; \<open>coverImageId\<close> becomes the new id \<open>cover-<id>-<timestamp>\<close> when the save
  of the cover reports success and stays what it was otherwise; every one of
  title, artist, description and category that is not supplied keeps its value;
  \<open>id\<close> and \<open>createdAt\<close> are kept and \<open>updatedAt\<close> is the fresh clock reading.
\<close>

theorem updateTrack_cover_only:
  assumes "updateTrack st audio tA tC tU i up svc = (Some T, svc', cs)"
      and "up_audioFile up = None" and "up_coverImage up = Some cover"
  shows "\<exists>r. getTrack st i = Next (Some r)
           \<and> audioFileId T = audioFileId r \<and> duration T = duration r
           \<and> coverImageId T =
               (if saveCoverImage st (''cover-'' @ i @ ''-'' @ string_of_nat tC) cover = Next True
                then Some (''cover-'' @ i @ ''-'' @ string_of_nat tC) else coverImageId r)
           \<and> (up_title up = None \<longrightarrow> title T = title r)
           \<and> (up_artist up = None \<longrightarrow> artist T = artist r)
           \<and> (up_description up = None \<longrightarrow> description T = description r)
           \<and> (up_category up = None \<longrightarrow> category T = category r)
           \<and> id' T = id' r \<and> createdAt T = createdAt r \<and> updatedAt T = tU"
proof -
  obtain res c0 where p: "updateTrack_pipe st audio tA tC tU i up = (res, c0)" by force
  have "res = Inr T"
    using assms(1) p by (cases res) (simp_all add: updateTrack_Inl updateTrack_Inr)
  with p obtain r a d c cs1 where r: "getTrack st i = Next (Some r)"
      and b: "updateTrack_blobs st audio tA tC i up r = (Inr (a, d, c), cs1)"
      and T: "T = r\<lparr> title := (case up_title up of Some s \<Rightarrow> trim s | None \<Rightarrow> title r),
               artist := (case up_artist up of Some s \<Rightarrow> trim s | None \<Rightarrow> artist r),
               description := (case up_description up of Some s \<Rightarrow> Some (trim s)
                               | None \<Rightarrow> description r),
               category := (case up_category up of Some c \<Rightarrow> c | None \<Rightarrow> category r),
               audioFileId := a, coverImageId := c, duration := d, updatedAt := tU \<rparr>"
    using updateTrack_pipe_Inr_record by blast
  from updateTrack_blobs_Inr[OF b] assms(2,3)
  have "a = audioFileId r" "d = duration r"
       "c = (if saveCoverImage st (''cover-'' @ i @ ''-'' @ string_of_nat tC) cover = Next True
             then Some (''cover-'' @ i @ ''-'' @ string_of_nat tC) else coverImageId r)"
    by simp_all
  with r T show ?thesis by simp
qed

theorem updateTrack_cover_only_witness:
  "\<exists>T. fst (updateTrack ex_storage ex_audio 30 31 32 ''track-1-abc'' ex_cover_only ex_service) = Some T
      \<and> audioFileId T = ''audio-track-1-abc'' \<and> duration T = 3
      \<and> coverImageId T = Some ''cover-track-1-abc-31''
      \<and> title T = ''Song'' \<and> updatedAt T = 32"
proof -
  obtain res s c where u: "updateTrack ex_storage ex_audio 30 31 32 ''track-1-abc'' ex_cover_only
      ex_service = (res, s, c)" by (metis prod_cases3)
  have "res \<noteq> None"
    using u
    by (auto simp add: updateTrack_def updateTrack_pipe_def updateTrack_blobs_def updateTrack_cover_def
        updateTrack_saveRecord_def Let_def ex_storage_def ex_cover_only_def)
  then obtain T where T: "res = Some T" by auto
  have 2: "up_audioFile ex_cover_only = None" by (simp add: ex_cover_only_def)
  have 3: "up_coverImage ex_cover_only = Some (File ''new.png'')" by (simp add: ex_cover_only_def)
  from updateTrack_cover_only[OF u[unfolded T] 2 3]
  have "audioFileId T = ''audio-track-1-abc'' \<and> duration T = 3
      \<and> coverImageId T = Some ''cover-track-1-abc-31''
      \<and> title T = ''Song'' \<and> updatedAt T = 32"
    by (auto simp add: ex_storage_def ex_record_def ex_cover_only_def string_of_nat_31)
  with u T show ?thesis by simp
qed

text \<open>
  Claim C7 as stated fails: the stored record has no cover, the save of the new cover
  reports failure, and the update succeeds with \<open>coverImageId\<close> unchanged (absent).
\<close>

theorem updateTrack_cover_only_counterexample:
  "fst (updateTrack (ex_storage\<lparr>getTrack := (\<lambda>i. Next (Some (ex_record\<lparr>coverImageId := None\<rparr>))),
                                   saveCoverImage := (\<lambda>i f. Next False)\<rparr>)
          ex_audio 30 31 32 ''track-1-abc'' ex_cover_only ex_service)
     = Some (ex_record\<lparr>coverImageId := None, updatedAt := 32\<rparr>)
   \<and> coverImageId (ex_record\<lparr>coverImageId := None, updatedAt := 32\<rparr>)
       = coverImageId (ex_record\<lparr>coverImageId := None\<rparr>)"
  by (simp add: updateTrack_def updateTrack_pipe_def updateTrack_blobs_def updateTrack_cover_def
        updateTrack_saveRecord_def mapRecordToTrack_def Let_def ex_storage_def ex_service_def
        ex_record_def ex_cover_only_def truthy_def)

section \<open>Order of the track list\<close>

lemma set_insort_cmp: "set (insort_cmp cmp x xs) = insert x (set xs)"
  by (induction xs) auto

lemma sorted_insort_cmp:
  "sortedByCreatedAtDesc xs \<Longrightarrow> createdAt x \<notin> createdAt ` set xs \<Longrightarrow>
   sortedByCreatedAtDesc (insort_cmp byCreatedAtDesc x xs)"
proof (induction xs)
  case Nil
  then show ?case by (simp add: sortedByCreatedAtDesc_def)
next
  case (Cons y ys)
  have ys: "sortedByCreatedAtDesc ys" and y: "\<forall>z\<in>set ys. createdAt z < createdAt y"
    using Cons.prems(1) by (auto simp: sortedByCreatedAtDesc_def)
  have ne: "createdAt x \<noteq> createdAt y" and nin: "createdAt x \<notin> createdAt ` set ys"
    using Cons.prems(2) by auto
  show ?case
  proof (cases "byCreatedAtDesc x y \<le> 0")
    case True
    then have "createdAt y < createdAt x"
      using ne by (simp add: byCreatedAtDesc_def)
    moreover from this y have "\<forall>z\<in>set ys. createdAt z < createdAt x" by auto
    ultimately show ?thesis
      using True Cons.prems(1) by (simp add: sortedByCreatedAtDesc_def)
  next
    case False
    then have "createdAt x < createdAt y" by (simp add: byCreatedAtDesc_def)
    moreover have "sortedByCreatedAtDesc (insort_cmp byCreatedAtDesc x ys)"
      using Cons.IH ys nin by simp
    ultimately show ?thesis
      using False y by (simp add: sortedByCreatedAtDesc_def set_insort_cmp)
  qed
qed

lemma array_sort_Cons: "array_sort cmp (x # xs) = insort_cmp cmp x (array_sort cmp xs)"
  by (simp add: array_sort_def)

lemma set_array_sort: "set (array_sort cmp xs) = set xs"
  by (induction xs) (simp_all add: array_sort_def set_insort_cmp)

lemma sorted_array_sort:
  "distinct (map createdAt xs) \<Longrightarrow> sortedByCreatedAtDesc (array_sort byCreatedAtDesc xs)"
proof (induction xs)
  case Nil
  then show ?case by (simp add: array_sort_def sortedByCreatedAtDesc_def)
next
  case (Cons x xs)
  then show ?case
    by (simp add: array_sort_Cons sorted_insort_cmp set_array_sort)
qed

lemma sortedByCreatedAtDesc_map:
  "sortedByCreatedAtDesc ts = sorted_wrt (>) (map createdAt ts)"
  by (simp add: sortedByCreatedAtDesc_def sorted_wrt_map)

lemma sortedByCreatedAtDesc_filter:
  "sortedByCreatedAtDesc ts \<Longrightarrow> sortedByCreatedAtDesc (filter P ts)"
  by (simp add: sortedByCreatedAtDesc_def sorted_wrt_filter)

lemma createTrack_pipe_createdAt:
  "createTrack_pipe st audio tId rnd tNow fd = (Inr T, cs) \<Longrightarrow> createdAt T = tNow"
  by (auto simp: createTrack_pipe_def createTrack_saveRecord_def Let_def mapRecordToTrack_def
           split: notification.splits if_splits option.splits prod.splits)

lemma loadTracks_order:
  assumes "getAllTracks st = Next records" "distinct (map createdAt records)"
  shows "sortedByCreatedAtDesc (tracks (fst (loadTracks st svc)))"
  using assms sorted_array_sort[of "map mapRecordToTrack records"]
  by (simp add: loadTracks_def Let_def mapRecordToTrack_id[abs_def] comp_def)

lemma createTrack_order:
  assumes "sortedByCreatedAtDesc (tracks svc)" "\<forall>t\<in>set (tracks svc). createdAt t < tNow"
  shows "sortedByCreatedAtDesc (tracks (fst (snd (createTrack st audio tId rnd tNow fd svc))))"
proof -
  obtain r c where p: "createTrack_pipe st audio tId rnd tNow fd = (r, c)" by force
  show ?thesis
  proof (cases r)
    case (Inl e)
    with p assms show ?thesis by (simp add: createTrack_Inl handleError_fields)
  next
    case (Inr T)
    with p have "createdAt T = tNow" by (simp add: createTrack_pipe_createdAt)
    with p Inr assms show ?thesis
      by (auto simp add: createTrack_Inr sortedByCreatedAtDesc_def)
  qed
qed

lemma updateTrack_order:
  assumes "sortedByCreatedAtDesc (tracks svc)"
      and "\<forall>r. getTrack st i = Next (Some r) \<longrightarrow>
             (\<forall>t\<in>set (tracks svc). id' t = i \<longrightarrow> createdAt t = createdAt r)"
  shows "sortedByCreatedAtDesc (tracks (fst (snd (updateTrack st audio tA tC tU i up svc))))"
proof -
  obtain res c where p: "updateTrack_pipe st audio tA tC tU i up = (res, c)" by force
  show ?thesis
  proof (cases res)
    case (Inl e)
    with p assms show ?thesis by (simp add: updateTrack_Inl handleError_fields)
  next
    case (Inr T)
    with p obtain r where r: "getTrack st i = Next (Some r)" and c: "createdAt T = createdAt r"
      using updateTrack_pipe_Inr_record[of st audio tA tC tU i up T c] by auto
    have "map createdAt (map (\<lambda>t. if id' t = i then T else t) (tracks svc))
            = map createdAt (tracks svc)"
      using assms(2) r c by (auto simp: comp_def)
    with assms(1) p Inr show ?thesis
      by (simp add: updateTrack_Inr sortedByCreatedAtDesc_map del: map_map)
  qed
qed

lemma deleteTrack_order:
  assumes "sortedByCreatedAtDesc (tracks svc)"
  shows "sortedByCreatedAtDesc (tracks (fst (snd (deleteTrack st i svc))))"
proof -
  obtain res c where p: "deleteTrack_pipe st i = (res, c)" by force
  show ?thesis
    using p assms
    by (cases res)
       (simp_all add: deleteTrack_Inl deleteTrack_Inr handleError_fields
          sortedByCreatedAtDesc_filter)
qed

text \<open>
  Claim C6, amended. A reload of records with distinct creation timestamps leaves
  the list sorted strictly by \<open>createdAt\<close> descending. \<open>createTrack\<close> keeps a sorted
  list sorted when the clock reading it stamps the new track with is later than the
  \<open>createdAt\<close> of every listed track (it prepends and does not sort);
  \<open>updateTrack\<close> keeps it sorted when the listed tracks with that id carry the
  \<open>createdAt\<close> of the stored record (it replaces in place and does not change the
  record's \<open>createdAt\<close>); \<open>deleteTrack\<close> keeps it sorted.
\<close>

theorem track_list_order:
  "(getAllTracks st = Next records \<and> distinct (map createdAt records) \<longrightarrow>
      sortedByCreatedAtDesc (tracks (fst (loadTracks st svc))))
   \<and> (sortedByCreatedAtDesc (tracks svc) \<and> (\<forall>t\<in>set (tracks svc). createdAt t < tNow) \<longrightarrow>
      sortedByCreatedAtDesc (tracks (fst (snd (createTrack st audio tId rnd tNow fd svc)))))
   \<and> (sortedByCreatedAtDesc (tracks svc)
       \<and> (\<forall>r. getTrack st i = Next (Some r) \<longrightarrow>
             (\<forall>t\<in>set (tracks svc). id' t = i \<longrightarrow> createdAt t = createdAt r)) \<longrightarrow>
      sortedByCreatedAtDesc (tracks (fst (snd (updateTrack st audio tA tC tU i up svc)))))
   \<and> (sortedByCreatedAtDesc (tracks svc) \<longrightarrow>
      sortedByCreatedAtDesc (tracks (fst (snd (deleteTrack st i svc)))))"
proof (intro conjI impI)
  assume "getAllTracks st = Next records \<and> distinct (map createdAt records)"
  then show "sortedByCreatedAtDesc (tracks (fst (loadTracks st svc)))"
    by (simp add: loadTracks_order)
next
  assume "sortedByCreatedAtDesc (tracks svc) \<and> (\<forall>t\<in>set (tracks svc). createdAt t < tNow)"
  then show "sortedByCreatedAtDesc (tracks (fst (snd (createTrack st audio tId rnd tNow fd svc))))"
    by (simp add: createTrack_order)
next
  assume "sortedByCreatedAtDesc (tracks svc)
       \<and> (\<forall>r. getTrack st i = Next (Some r) \<longrightarrow>
             (\<forall>t\<in>set (tracks svc). id' t = i \<longrightarrow> createdAt t = createdAt r))"
  then show "sortedByCreatedAtDesc (tracks (fst (snd (updateTrack st audio tA tC tU i up svc))))"
    using updateTrack_order[of svc st i audio tA tC tU up] by blast
next
  assume "sortedByCreatedAtDesc (tracks svc)"
  then show "sortedByCreatedAtDesc (tracks (fst (snd (deleteTrack st i svc))))"
    by (simp add: deleteTrack_order)
qed

theorem track_list_order_witness:
  "sortedByCreatedAtDesc
     (tracks (fst (loadTracks (ex_storage\<lparr>getAllTracks := Next [ex_record, ex_created]\<rparr>)
        ex_service)))
   \<and> sortedByCreatedAtDesc
       (tracks (fst (snd (createTrack ex_storage ex_audio 2 ''xyz'' 20 ex_form ex_service))))
   \<and> sortedByCreatedAtDesc
       (tracks (fst (snd (updateTrack ex_storage ex_audio 30 31 32 ''track-1-abc'' ex_cover_only
          ex_service))))
   \<and> sortedByCreatedAtDesc (tracks (fst (snd (deleteTrack ex_storage ''track-1-abc'' ex_service))))"
proof -
  let ?S = "ex_storage\<lparr>getAllTracks := Next [ex_record, ex_created]\<rparr>"
  have l: "getAllTracks ?S = Next [ex_record, ex_created]
           \<and> distinct (map createdAt [ex_record, ex_created])"
    by (simp add: ex_record_def ex_created_def)
  have s: "sortedByCreatedAtDesc (tracks ex_service)"
    by (simp add: sortedByCreatedAtDesc_def ex_service_def)
  have c: "\<forall>t\<in>set (tracks ex_service). createdAt t < 20"
    by (simp add: ex_service_def ex_record_def)
  have u: "\<forall>r. getTrack ex_storage ''track-1-abc'' = Next (Some r) \<longrightarrow>
             (\<forall>t\<in>set (tracks ex_service). id' t = ''track-1-abc'' \<longrightarrow> createdAt t = createdAt r)"
    by (simp add: ex_storage_def ex_service_def)
  note load = track_list_order[where st = ?S and records = "[ex_record, ex_created]"
      and svc = ex_service, THEN conjunct1, rule_format, OF l]
  note rest = track_list_order[where st = ex_storage and svc = ex_service and tNow = 20
      and audio = ex_audio and tId = 2 and rnd = "''xyz''" and fd = ex_form
      and i = "''track-1-abc''" and tA = 30 and tC = 31 and tU = 32 and up = ex_cover_only,
      THEN conjunct2]
  show ?thesis
    using load rest s c u by blast
qed

text \<open>
  Claim C6 as stated fails: the list holds a track created at 10, the clock reads 5
  when \<open>createTrack\<close> stamps the new track (the clock was set back, or this creation
  is the one of two overlapping ones that was stamped first and saved last), the
  timestamps are distinct, and the new list is not sorted.
\<close>

theorem track_list_order_counterexample:
  "sortedByCreatedAtDesc (tracks ex_service)
   \<and> tracks (fst (snd (createTrack ex_storage ex_audio 2 ''xyz'' 5 ex_form ex_service)))
       = [ex_created\<lparr>createdAt := 5, updatedAt := 5\<rparr>, ex_record]
   \<and> distinct (map createdAt [ex_created\<lparr>createdAt := 5, updatedAt := 5\<rparr>, ex_record])
   \<and> \<not> sortedByCreatedAtDesc [ex_created\<lparr>createdAt := 5, updatedAt := 5\<rparr>, ex_record]"
proof -
  have 1: "sortedByCreatedAtDesc (tracks ex_service)"
    by (simp add: sortedByCreatedAtDesc_def ex_service_def)
  have 2: "tracks (fst (snd (createTrack ex_storage ex_audio 2 ''xyz'' 5 ex_form ex_service)))
       = [ex_created\<lparr>createdAt := 5, updatedAt := 5\<rparr>, ex_record]"
    by (simp add: createTrack_example)
  have 3: "distinct (map createdAt [ex_created\<lparr>createdAt := 5, updatedAt := 5\<rparr>, ex_record])"
    by (simp add: ex_record_def)
  have 4: "\<not> sortedByCreatedAtDesc [ex_created\<lparr>createdAt := 5, updatedAt := 5\<rparr>, ex_record]"
    by (simp add: sortedByCreatedAtDesc_def ex_record_def)
  show ?thesis using 1 2 3 4 by simp
qed

section \<open>Blob ids\<close>

lemma digit_char_is_digit: "d < 10 \<Longrightarrow> is_digit (digit_char d)"
proof -
  assume "d < 10"
  then have "d \<in> {0,1,2,3,4,5,6,7,8,9}" by auto
  then show ?thesis by (auto simp: is_digit_def digit_char_def)
qed

lemma string_of_nat_digits: "list_all is_digit (string_of_nat n)"
proof (induction n rule: string_of_nat.induct)
  case (1 n)
  show ?case
  proof (cases "n < 10")
    case True
    then show ?thesis by (subst string_of_nat.simps) (simp add: digit_char_is_digit)
  next
    case False
    with 1 show ?thesis by (subst string_of_nat.simps) (simp add: digit_char_is_digit)
  qed
qed

lemma string_of_nat_nonempty: "string_of_nat n \<noteq> []"
  by (subst string_of_nat.simps) simp

lemma string_of_nat_timestamp: "is_timestamp (string_of_nat n)"
  by (simp add: is_timestamp_def string_of_nat_digits string_of_nat_nonempty)









end
